theory Spec2Isabelle
  imports Complex_Main "HOL-Library.Word"
begin

section \<open>Conventions\<close>

text \<open>
  The development embeds the real-time PCM pipeline of the repository: the capture frame
  accumulator (\<^verbatim>\<open>public/pcm-processor.js\<close>), the sample codec, the level monitor and the
  WAV encoder (\<^verbatim>\<open>src/lib/audioUtils\<close>, \<^verbatim>\<open>pcm-to-wav-converter.js\<close>) and the playback
  scheduler of \<^verbatim>\<open>src/components/Connections.tsx\<close>.

  \<^item> Elements of an \<^verbatim>\<open>Int16Array\<close> are \<open>16 word\<close>, read with \<open>sint\<close>; bytes of an
    \<^verbatim>\<open>ArrayBuffer\<close> are \<open>8 word\<close>.
  \<^item> JavaScript numbers that the code uses as times and samples are modelled as exact
    reals. The one place where the code can leave the finite numbers, the division
    \<^verbatim>\<open>sum / samples.length\<close> of the level monitor, is modelled with an explicit type that
    has \<^verbatim>\<open>NaN\<close> and the infinities.
  \<^item> Exceptions are values of \<open>js_error\<close>; a \<^verbatim>\<open>try/catch\<close> of the source is a case
    distinction on a sum.
\<close>

datatype js_error = TypeError | RangeError | NotSupportedError

section \<open>Capture frame accumulator\<close>

text \<open>
  \<^verbatim>\<open>class PCMProcessor\<close>: the constructor allocates a buffer of 4096 samples; the instance
  fields are \<^verbatim>\<open>bufferSize\<close>, \<^verbatim>\<open>buffer\<close> and \<^verbatim>\<open>bufferIndex\<close>.
\<close>

record PCMProcessor =
  bufferSize :: nat
  buffer :: "real list"
  bufferIndex :: nat

definition PCMProcessor_new :: PCMProcessor where
  "PCMProcessor_new = \<lparr>bufferSize = 0, buffer = replicate 4096 0, bufferIndex = 0\<rparr>"

text \<open>
  The loop over \<^verbatim>\<open>inputChannel\<close>. The third argument is the list of messages posted to
  the main thread so far (\<^verbatim>\<open>this.port.postMessage(pcmData)\<close>); a posted message is a copy
  of the whole buffer. A typed-array store outside the array is ignored in JavaScript, as
  \<open>xs[i := v]\<close> is in HOL.
\<close>

fun process_samples ::
  "real list \<Rightarrow> PCMProcessor \<Rightarrow> real list list \<Rightarrow> PCMProcessor \<times> real list list" where
  "process_samples [] p posted = (p, posted)"
| "process_samples (x # xs) p posted =
     (let b = (buffer p)[bufferIndex p := x];
          i = bufferIndex p + 1
      in if i \<ge> length b
         then process_samples xs (p\<lparr>buffer := b, bufferIndex := 0\<rparr>) (posted @ [b])
         else process_samples xs (p\<lparr>buffer := b, bufferIndex := i\<rparr>) posted)"

text \<open>
  \<^verbatim>\<open>process(inputs, outputs, parameters)\<close>. \<^verbatim>\<open>inputs[0]\<close> of an empty \<^verbatim>\<open>inputs\<close> is
  \<^verbatim>\<open>undefined\<close>, whose \<^verbatim>\<open>length\<close> raises a TypeError. An input without channels is
  skipped. The result is the return value (always \<^verbatim>\<open>true\<close>), the processor and the
  posted messages.
\<close>

definition process ::
  "real list list list \<Rightarrow> PCMProcessor \<Rightarrow> real list list
     \<Rightarrow> js_error + (bool \<times> PCMProcessor \<times> real list list)" where
  "process inputs p posted =
     (case inputs of
        [] \<Rightarrow> Inl TypeError
      | input # _ \<Rightarrow>
          (case input of
             [] \<Rightarrow> Inr (True, p, posted)
           | inputChannel # _ \<Rightarrow> Inr (True, process_samples inputChannel p posted)))"

text \<open>
  The audio engine calls \<^verbatim>\<open>process\<close> once per render quantum. \<open>run_quanta\<close> feeds a
  list of mono blocks, each as \<^verbatim>\<open>inputs = [[block]]\<close>, and stops when the processor
  returns \<^verbatim>\<open>false\<close> (it never does).
\<close>

fun run_quanta ::
  "real list list \<Rightarrow> PCMProcessor \<Rightarrow> real list list
     \<Rightarrow> js_error + (PCMProcessor \<times> real list list)" where
  "run_quanta [] p posted = Inr (p, posted)"
| "run_quanta (block # blocks) p posted =
     (case process [[block]] p posted of
        Inl e \<Rightarrow> Inl e
      | Inr (alive, p', posted') \<Rightarrow>
          if alive then run_quanta blocks p' posted' else Inr (p', posted'))"

text \<open>The full frames of a stream: its consecutive slices of \<open>L\<close> samples.\<close>

definition full_frames :: "nat \<Rightarrow> 'a list \<Rightarrow> 'a list list" where
  "full_frames L xs = map (\<lambda>k. take L (drop (k * L) xs)) [0..<length xs div L]"

section \<open>Sample codec and level monitor\<close>

text \<open>
  \<^verbatim>\<open>audioUtils\<close>: \<^verbatim>\<open>SAMPLE_RATE = 16000\<close>.
\<close>

definition SAMPLE_RATE :: nat where
  "SAMPLE_RATE = 16000"

text \<open>
  \<^verbatim>\<open>Math.round\<close> returns the nearest integer and rounds a tie towards \<open>+\<infinity>\<close>. A store
  into an \<^verbatim>\<open>Int16Array\<close> keeps the low 16 bits, which is \<open>word_of_int\<close>.
\<close>

definition Math_round :: "real \<Rightarrow> int" where
  "Math_round v = \<lfloor>v + 1 / 2\<rfloor>"

definition floatToPCM16 :: "real list \<Rightarrow> 16 word list" where
  "floatToPCM16 floatSamples =
     map (\<lambda>x. let clamped = max (- 1) (min 1 x)
              in word_of_int (Math_round (clamped * 32767))) floatSamples"

text \<open>
  \<^verbatim>\<open>pcm16ToFloat\<close> stores each quotient into a \<^verbatim>\<open>Float32Array\<close>: the quotient is
  rounded to a double by the division and to single precision by the store. That
  rounding is the parameter \<open>fround\<close>; the identity gives the exact quotient.
\<close>

definition pcm16ToFloat :: "(real \<Rightarrow> real) \<Rightarrow> 16 word list \<Rightarrow> real list" where
  "pcm16ToFloat fround pcmSamples = map (\<lambda>w. fround (real_of_int (sint w) / 32767)) pcmSamples"

text \<open>
  The result of a floating-point division, square root or product that may leave the
  finite numbers: \<^verbatim>\<open>0 / 0\<close> is \<^verbatim>\<open>NaN\<close> and \<^verbatim>\<open>x / 0\<close> is an infinity.
\<close>

datatype jsnum = Num real | PosInfinity | NegInfinity | NaN

definition js_div :: "real \<Rightarrow> real \<Rightarrow> jsnum" where
  "js_div a b =
     (if b \<noteq> 0 then Num (a / b)
      else if a > 0 then PosInfinity
      else if a < 0 then NegInfinity
      else NaN)"

fun Math_sqrt :: "jsnum \<Rightarrow> jsnum" where
  "Math_sqrt (Num r) = (if r < 0 then NaN else Num (sqrt r))"
| "Math_sqrt PosInfinity = PosInfinity"
| "Math_sqrt NegInfinity = NaN"
| "Math_sqrt NaN = NaN"

fun js_times :: "jsnum \<Rightarrow> real \<Rightarrow> jsnum" where
  "js_times (Num r) c = Num (r * c)"
| "js_times PosInfinity c = (if c > 0 then PosInfinity else if c < 0 then NegInfinity else NaN)"
| "js_times NegInfinity c = (if c > 0 then NegInfinity else if c < 0 then PosInfinity else NaN)"
| "js_times NaN c = NaN"

text \<open>
  \<^verbatim>\<open>calculateVolume(samples: Float32Array | Int16Array)\<close>: the divisor \<^verbatim>\<open>maxValue\<close> depends
  on the kind of array.
\<close>

datatype samples = Float32Array "real list" | Int16Array "16 word list"

fun sample_values :: "samples \<Rightarrow> real list" where
  "sample_values (Float32Array xs) = xs"
| "sample_values (Int16Array ws) = map (\<lambda>w. real_of_int (sint w)) ws"

fun maxValue :: "samples \<Rightarrow> real" where
  "maxValue (Float32Array xs) = 1"
| "maxValue (Int16Array ws) = 32767"

definition calculateVolume :: "samples \<Rightarrow> jsnum" where
  "calculateVolume samples =
     (let sum = foldl (\<lambda>sum x.
                  let normalizedSample = x / maxValue samples
                  in sum + normalizedSample * normalizedSample) 0 (sample_values samples);
          rms = Math_sqrt (js_div sum (real (length (sample_values samples))))
      in js_times rms 100)"

section \<open>WAV container encoder\<close>

text \<open>
  A \<^verbatim>\<open>DataView\<close> over an \<^verbatim>\<open>ArrayBuffer\<close> is a list of bytes. A setter raises a RangeError
  when the write does not fit in the buffer; it converts its value modulo the width
  (\<open>of_nat\<close> into the word) and writes it little-endian (the calls pass \<^verbatim>\<open>true\<close>).
\<close>

type_synonym dataview = "8 word list"

definition setUint8 :: "dataview \<Rightarrow> nat \<Rightarrow> 8 word \<Rightarrow> js_error + dataview" where
  "setUint8 view byteOffset v =
     (if byteOffset + 1 \<le> length view then Inr (view[byteOffset := v]) else Inl RangeError)"

definition setUint16 :: "dataview \<Rightarrow> nat \<Rightarrow> 16 word \<Rightarrow> js_error + dataview" where
  "setUint16 view byteOffset v =
     (if byteOffset + 2 \<le> length view
      then Inr (view[byteOffset := ucast v, byteOffset + 1 := ucast (drop_bit 8 v)])
      else Inl RangeError)"

definition setUint32 :: "dataview \<Rightarrow> nat \<Rightarrow> 32 word \<Rightarrow> js_error + dataview" where
  "setUint32 view byteOffset v =
     (if byteOffset + 4 \<le> length view
      then Inr (view[byteOffset := ucast v, byteOffset + 1 := ucast (drop_bit 8 v),
                     byteOffset + 2 := ucast (drop_bit 16 v),
                     byteOffset + 3 := ucast (drop_bit 24 v)])
      else Inl RangeError)"

text \<open>\<^verbatim>\<open>setInt16\<close> writes the same two bytes as \<^verbatim>\<open>setUint16\<close> of the sample's bits.\<close>

definition setInt16 :: "dataview \<Rightarrow> nat \<Rightarrow> 16 word \<Rightarrow> js_error + dataview" where
  "setInt16 view byteOffset v = setUint16 view byteOffset v"

text \<open>\<^verbatim>\<open>getUint32(byteOffset, true)\<close>: four bytes read as a little-endian unsigned integer.\<close>

definition getUint32 :: "dataview \<Rightarrow> nat \<Rightarrow> nat" where
  "getUint32 view byteOffset =
     unat (view ! byteOffset) + 256 * unat (view ! (byteOffset + 1))
       + 65536 * unat (view ! (byteOffset + 2)) + 16777216 * unat (view ! (byteOffset + 3))"

text \<open>Sequencing of calls that may raise.\<close>

definition and_then :: "js_error + 'a \<Rightarrow> ('a \<Rightarrow> js_error + 'b) \<Rightarrow> js_error + 'b" where
  "and_then r f = (case r of Inl e \<Rightarrow> Inl e | Inr v \<Rightarrow> f v)"

text \<open>The local \<^verbatim>\<open>writeString(offset, string)\<close>: one \<^verbatim>\<open>setUint8\<close> per character.\<close>

fun writeString :: "dataview \<Rightarrow> nat \<Rightarrow> string \<Rightarrow> js_error + dataview" where
  "writeString view offset [] = Inr view"
| "writeString view offset (c # cs) =
     and_then (setUint8 view offset (of_char c)) (\<lambda>view'. writeString view' (offset + 1) cs)"

text \<open>The loop \<^verbatim>\<open>for (i = 0; i < pcmSamples.length; i++) view.setInt16(44 + i * 2, ...)\<close>.\<close>

fun write_pcm :: "dataview \<Rightarrow> nat \<Rightarrow> 16 word list \<Rightarrow> js_error + dataview" where
  "write_pcm view i [] = Inr view"
| "write_pcm view i (s # ss) =
     and_then (setInt16 view (44 + i * 2) s) (\<lambda>view'. write_pcm view' (i + 1) ss)"

text \<open>
  \<^verbatim>\<open>pcmToWav(pcmSamples, sampleRate, numChannels)\<close> of \<^verbatim>\<open>audioUtils\<close>. The sample rate and
  the channel count are non-negative integers.
\<close>

definition pcmToWav :: "16 word list \<Rightarrow> nat \<Rightarrow> nat \<Rightarrow> js_error + dataview" where
  "pcmToWav pcmSamples sampleRate numChannels =
     (let bufferLength = 44 + length pcmSamples * 2;
          view = replicate bufferLength 0
      in and_then (writeString view 0 ''RIFF'') (\<lambda>view.
         and_then (setUint32 view 4 (of_nat (bufferLength - 8))) (\<lambda>view.
         and_then (writeString view 8 ''WAVE'') (\<lambda>view.
         and_then (writeString view 12 ''fmt '') (\<lambda>view.
         and_then (setUint32 view 16 16) (\<lambda>view.
         and_then (setUint16 view 20 1) (\<lambda>view.
         and_then (setUint16 view 22 (of_nat numChannels)) (\<lambda>view.
         and_then (setUint32 view 24 (of_nat sampleRate)) (\<lambda>view.
         and_then (setUint32 view 28 (of_nat (sampleRate * numChannels * 2))) (\<lambda>view.
         and_then (setUint16 view 32 (of_nat (numChannels * 2))) (\<lambda>view.
         and_then (setUint16 view 34 16) (\<lambda>view.
         and_then (writeString view 36 ''data'') (\<lambda>view.
         and_then (setUint32 view 40 (of_nat (length pcmSamples * 2))) (\<lambda>view.
         write_pcm view 0 pcmSamples))))))))))))))"

text \<open>
  \<^verbatim>\<open>pcmToWav(pcmBuffer, sampleRate, numChannels, bitsPerSample)\<close> of
  \<^verbatim>\<open>pcm-to-wav-converter.js\<close>, on Node buffers. \<^verbatim>\<open>header.write(string, offset)\<close> stores
  the characters that fit. \<^verbatim>\<open>writeUInt16LE\<close> and \<^verbatim>\<open>writeUInt32LE\<close> raise a RangeError
  for a value outside the range of the width or a write outside the buffer, and store the
  integer part of the value. \<^verbatim>\<open>bitsPerSample / 8\<close> need not be an integer, so the derived
  values are reals.
\<close>

fun Buffer_write :: "dataview \<Rightarrow> string \<Rightarrow> nat \<Rightarrow> dataview" where
  "Buffer_write buf [] offset = buf"
| "Buffer_write buf (c # cs) offset = Buffer_write (buf[offset := of_char c]) cs (offset + 1)"

definition writeUInt16LE :: "dataview \<Rightarrow> real \<Rightarrow> nat \<Rightarrow> js_error + dataview" where
  "writeUInt16LE buf v offset =
     (if v < 0 \<or> v > 65535 then Inl RangeError
      else setUint16 buf offset (of_nat (nat \<lfloor>v\<rfloor>)))"

definition writeUInt32LE :: "dataview \<Rightarrow> real \<Rightarrow> nat \<Rightarrow> js_error + dataview" where
  "writeUInt32LE buf v offset =
     (if v < 0 \<or> v > 4294967295 then Inl RangeError
      else setUint32 buf offset (of_nat (nat \<lfloor>v\<rfloor>)))"

definition pcmToWav_converter ::
  "dataview \<Rightarrow> nat \<Rightarrow> nat \<Rightarrow> nat \<Rightarrow> js_error + dataview" where
  "pcmToWav_converter pcmBuffer sampleRate numChannels bitsPerSample =
     (let bytesPerSample = real bitsPerSample / 8;
          blockAlign = real numChannels * bytesPerSample;
          byteRate = real sampleRate * blockAlign;
          dataSize = length pcmBuffer;
          fileSize = 44 + dataSize;
          header = Buffer_write (replicate 44 0) ''RIFF'' 0
      in and_then (writeUInt32LE header (real fileSize - 8) 4) (\<lambda>header.
         let header = Buffer_write header ''WAVE'' 8;
             header = Buffer_write header ''fmt '' 12
         in
         and_then (writeUInt32LE header 16 16) (\<lambda>header.
         and_then (writeUInt16LE header 1 20) (\<lambda>header.
         and_then (writeUInt16LE header (real numChannels) 22) (\<lambda>header.
         and_then (writeUInt32LE header (real sampleRate) 24) (\<lambda>header.
         and_then (writeUInt32LE header byteRate 28) (\<lambda>header.
         and_then (writeUInt16LE header blockAlign 32) (\<lambda>header.
         and_then (writeUInt16LE header (real bitsPerSample) 34) (\<lambda>header.
         let header = Buffer_write header ''data'' 36
         in
         and_then (writeUInt32LE header (real dataSize) 40) (\<lambda>header.
         Inr (header @ pcmBuffer)))))))))))"

section \<open>Playback scheduler\<close>

text \<open>
  \<^verbatim>\<open>new Int16Array(arrayBuffer)\<close> raises a RangeError when the byte length is not a
  multiple of 2; otherwise its elements are the consecutive byte pairs, low byte first.
\<close>

fun int16_elements :: "8 word list \<Rightarrow> 16 word list" where
  "int16_elements (lo # hi # rest) = word_cat hi lo # int16_elements rest"
| "int16_elements _ = []"

definition new_Int16Array :: "8 word list \<Rightarrow> js_error + 16 word list" where
  "new_Int16Array arrayBuffer =
     (if length arrayBuffer mod 2 \<noteq> 0 then Inl RangeError
      else Inr (int16_elements arrayBuffer))"

text \<open>
  The Web Audio interface the scheduler uses. An audio context is represented by the
  sources started on it, in call order: for each call \<^verbatim>\<open>source.start(when)\<close> the argument
  \<^verbatim>\<open>when\<close>, the device time \<^verbatim>\<open>currentTime\<close> at which the call is made, and the samples of
  the source's buffer. A source whose \<^verbatim>\<open>when\<close> is earlier than the device time of the
  call starts to sound at once, so it becomes audible at the later of the two
  (\<open>audible_start\<close>). \<^verbatim>\<open>createBuffer\<close> raises a NotSupportedError for a length of zero
  frames and \<^verbatim>\<open>start\<close> raises a RangeError for a negative time; these rules of the Web
  Audio API are what the \<^verbatim>\<open>try\<close> block of \<^verbatim>\<open>processChunk\<close> guards. The context's clock is
  an input of every function that reads it, and it has one value during one handler.
\<close>

record AudioContext =
  started :: "(real \<times> real \<times> real list) list"


definition createBuffer :: "nat \<Rightarrow> nat \<Rightarrow> nat \<Rightarrow> js_error + real list" where
  "createBuffer numberOfChannels len sampleRate =
     (if len = 0 then Inl NotSupportedError else Inr (replicate len 0))"

definition source_start ::
  "AudioContext \<Rightarrow> real list \<Rightarrow> real \<Rightarrow> real \<Rightarrow> js_error + AudioContext" where
  "source_start ctx samples when currentTime =
     (if when < 0 then Inl RangeError
      else Inr (ctx\<lparr>started := started ctx @ [(when, currentTime, samples)]\<rparr>))"

text \<open>
  A socket created by \<^verbatim>\<open>connectToWebsocket\<close>. Its \<^verbatim>\<open>onmessage\<close> handler is assigned once,
  in the render in which Connect was clicked, and calls the \<^verbatim>\<open>handlePCMData\<close> of that
  render. The \<^verbatim>\<open>isPlaying\<close> that this function reads is therefore the state of that
  render, whatever \<^verbatim>\<open>setIsPlaying\<close> does later: \<open>handler_isPlaying\<close>.
\<close>

record websocket =
  url :: string
  handler_isPlaying :: bool

text \<open>
  The state of the \<^verbatim>\<open>Connections\<close> component: its React state (\<^verbatim>\<open>useState\<close>), as the
  latest render has it, and its refs (\<^verbatim>\<open>useRef\<close>), under the names of the source. Two
  fields record effects. \<open>timeouts\<close> holds the pending calls
  \<^verbatim>\<open>setTimeout(processChunk, delay)\<close>, oldest first: the delay in milliseconds, and the
  \<^verbatim>\<open>isPlaying\<close> of the closure to which that \<^verbatim>\<open>processChunk\<close> belongs. \<open>console_error\<close>
  holds the messages of \<^verbatim>\<open>console.error\<close>. The lines of \<^verbatim>\<open>console.log\<close> are not modelled.
\<close>

record connections =
  websocketConnection :: "websocket option"
  isConnected :: bool
  connectionStatus :: string
  isPlaying :: bool
  volumeLevel :: jsnum
  playbackStatus :: string
  audioContext :: "AudioContext option"
  audioQueue :: "real list list"
  isPlaybackActive :: bool
  nextPlayTime :: real
  timeouts :: "(real \<times> bool) list"
  console_error :: "string list"

definition initial_connections :: connections where
  "initial_connections =
     \<lparr>websocketConnection = None, isConnected = False, connectionStatus = [],
      isPlaying = False, volumeLevel = Num 0, playbackStatus = [],
      audioContext = None, audioQueue = [], isPlaybackActive = False, nextPlayTime = 0,
      timeouts = [], console_error = []\<rparr>"

text \<open>
  The functions that run inside a closure take the closure's \<^verbatim>\<open>isPlaying\<close> as their first
  argument \<open>isPlaying'\<close>; they never read the field \<open>isPlaying\<close> of the state, which
  is what later renders see.

  The inner function \<^verbatim>\<open>processChunk\<close> of \<^verbatim>\<open>processAudioQueue\<close>: one scheduling step,
  run at device time \<open>currentTime\<close>. The branch \<^verbatim>\<open>if (!audioData)\<close> after the
  \<^verbatim>\<open>shift\<close> cannot be taken, since the queue is not empty there and its elements are
  arrays. An exception of the \<^verbatim>\<open>try\<close> block leaves \<open>nextPlayTime\<close> as it was, reports
  the error and retries after 100 ms; the frame has left the queue by then.
\<close>

definition processChunk :: "bool \<Rightarrow> real \<Rightarrow> connections \<Rightarrow> connections" where
  "processChunk isPlaying' currentTime s =
     (if \<not> isPlaying' \<or> audioContext s = None \<or> audioQueue s = [] then
        s\<lparr>isPlaybackActive := False,
          playbackStatus := (if isPlaying' then ''Waiting for audio data'' else ''Stopped''),
          volumeLevel := Num 0\<rparr>
      else
        (case (audioContext s, audioQueue s) of
           (Some ctx, audioData # rest) \<Rightarrow>
             (case and_then (createBuffer 1 (length audioData) SAMPLE_RATE)
                     (\<lambda>audioBuffer. source_start ctx audioData (nextPlayTime s) currentTime) of
                Inl e \<Rightarrow>
                  s\<lparr>audioQueue := rest,
                    console_error := console_error s @ [''Error playing audio chunk:''],
                    timeouts := timeouts s @ [(100, isPlaying')]\<rparr>
              | Inr ctx' \<Rightarrow>
                  (let chunkDuration = real (length audioData) / real SAMPLE_RATE;
                       advanced = nextPlayTime s + chunkDuration
                   in s\<lparr>audioQueue := rest,
                        audioContext := Some ctx',
                        nextPlayTime := (if advanced < currentTime then currentTime else advanced),
                        timeouts := timeouts s @ [(chunkDuration * 1000 / 2, isPlaying')]\<rparr>))
         | _ \<Rightarrow> s))"

definition processAudioQueue :: "bool \<Rightarrow> real \<Rightarrow> connections \<Rightarrow> connections" where
  "processAudioQueue isPlaying' currentTime s =
     (if audioContext s = None \<or> isPlaybackActive s then s
      else processChunk isPlaying' currentTime
             (s\<lparr>isPlaybackActive := True, playbackStatus := ''Playing audio''\<rparr>))"

text \<open>
  \<^verbatim>\<open>handlePCMData(arrayBuffer)\<close>. The only call of its \<^verbatim>\<open>try\<close> block that can raise is
  the \<^verbatim>\<open>Int16Array\<close> constructor. \<^verbatim>\<open>processAudioQueue\<close> has no \<^verbatim>\<open>await\<close>, so its body,
  with the first scheduling step, runs before \<^verbatim>\<open>handlePCMData\<close> returns; it is a
  function of the same render, so its \<^verbatim>\<open>processChunk\<close> reads the same \<^verbatim>\<open>isPlaying\<close>.
\<close>

definition handlePCMData ::
  "bool \<Rightarrow> (real \<Rightarrow> real) \<Rightarrow> real \<Rightarrow> connections \<Rightarrow> 8 word list \<Rightarrow> connections" where
  "handlePCMData isPlaying' fround currentTime s arrayBuffer =
     (if \<not> isPlaying' then s
      else
        (case new_Int16Array arrayBuffer of
           Inl e \<Rightarrow> s\<lparr>console_error := console_error s @ [''Error processing PCM data:'']\<rparr>
         | Inr pcmSamples \<Rightarrow>
             (let floatSamples = pcm16ToFloat fround pcmSamples;
                  volume = calculateVolume (Float32Array floatSamples);
                  s1 = s\<lparr>volumeLevel := volume, audioQueue := audioQueue s @ [floatSamples]\<rparr>
              in if \<not> isPlaybackActive s1 then processAudioQueue isPlaying' currentTime s1
                 else s1)))"

text \<open>
  The \<^verbatim>\<open>onmessage\<close> handler of a socket, in a closure with the given \<^verbatim>\<open>isPlaying\<close>.
  \<^verbatim>\<open>event.data\<close> is an \<^verbatim>\<open>ArrayBuffer\<close> or something else.
\<close>

datatype event_data = ArrayBuffer "8 word list" | Other string

definition onmessage ::
  "bool \<Rightarrow> (real \<Rightarrow> real) \<Rightarrow> real \<Rightarrow> connections \<Rightarrow> event_data \<Rightarrow> connections" where
  "onmessage isPlaying' fround currentTime s data =
     (case data of
        ArrayBuffer arrayBuffer \<Rightarrow> handlePCMData isPlaying' fround currentTime s arrayBuffer
      | Other message \<Rightarrow> s)"

text \<open>
  The firing of the oldest pending timer: \<^verbatim>\<open>processChunk\<close> runs in the closure that set
  the timer. \<^verbatim>\<open>stopAudioPlayback\<close> does not cancel a timer.
\<close>

definition timer_fires :: "real \<Rightarrow> connections \<Rightarrow> connections" where
  "timer_fires currentTime s =
     (case timeouts s of
        [] \<Rightarrow> s
      | (delay, isPlaying') # rest \<Rightarrow> processChunk isPlaying' currentTime (s\<lparr>timeouts := rest\<rparr>))"

text \<open>The functions of the component that the buttons and the socket call.\<close>

definition stopAudioPlayback :: "connections \<Rightarrow> connections" where
  "stopAudioPlayback s =
     s\<lparr>isPlaying := False, isPlaybackActive := False, audioQueue := [],
       volumeLevel := Num 0, playbackStatus := [], audioContext := None\<rparr>"

definition onopen :: "connections \<Rightarrow> connections" where
  "onopen s = s\<lparr>isConnected := True, connectionStatus := ''Connected''\<rparr>"

definition onclose :: "connections \<Rightarrow> connections" where
  "onclose s = stopAudioPlayback (s\<lparr>isConnected := False, connectionStatus := ''Disconnected''\<rparr>)"

definition onerror :: "connections \<Rightarrow> connections" where
  "onerror s =
     (let s' = stopAudioPlayback (s\<lparr>isConnected := False, connectionStatus := ''Connection error''\<rparr>)
      in s'\<lparr>console_error := console_error s' @ [''WebSocket error:'']\<rparr>)"

text \<open>
  \<^verbatim>\<open>connectToWebsocket\<close>, for the URL in the input field. \<open>blank\<close> is
  \<^verbatim>\<open>!websocketUrl.trim()\<close> for a URL of ASCII characters; whether the \<^verbatim>\<open>WebSocket\<close>
  constructor accepts the URL is an input. The new socket's handlers belong to the
  render that runs \<^verbatim>\<open>connectToWebsocket\<close>, so the socket keeps that render's
  \<^verbatim>\<open>isPlaying\<close>.
\<close>

definition blank :: "string \<Rightarrow> bool" where
  "blank websocketUrl =
     list_all (\<lambda>c. c \<in> set [CHR '' '', CHR 0x09, CHR 0x0A, CHR 0x0B, CHR 0x0C, CHR 0x0D])
       websocketUrl"

definition connectToWebsocket :: "string \<Rightarrow> bool \<Rightarrow> connections \<Rightarrow> connections" where
  "connectToWebsocket websocketUrl accepted s =
     (if blank websocketUrl then s\<lparr>connectionStatus := ''Please enter a WebSocket URL''\<rparr>
      else if \<not> accepted then
        s\<lparr>connectionStatus := ''Invalid URL'',
          console_error := console_error s @ [''WebSocket connection error:'']\<rparr>
      else
        s\<lparr>connectionStatus := ''Connecting...'',
          websocketConnection := Some \<lparr>url = websocketUrl, handler_isPlaying = isPlaying s\<rparr>\<rparr>)"

definition disconnectWebsocket :: "connections \<Rightarrow> connections" where
  "disconnectWebsocket s = stopAudioPlayback (s\<lparr>websocketConnection := None\<rparr>)"

text \<open>
  \<^verbatim>\<open>initializeAudioContext\<close>: what the browser does is an input. The constructor of the
  context raises, or the context is created and \<^verbatim>\<open>resume\<close> fails, or the context is
  ready with its clock at the given time. A new context has no source started.
\<close>

datatype context_outcome = ConstructorRaises | ResumeFails | Ready real

definition initializeAudioContext :: "context_outcome \<Rightarrow> connections \<Rightarrow> bool \<times> connections" where
  "initializeAudioContext outcome s =
     (case outcome of
        ConstructorRaises \<Rightarrow>
          (False, s\<lparr>playbackStatus := ''Audio initialization failed'',
                     console_error := console_error s @ [''Failed to initialize audio context:'']\<rparr>)
      | ResumeFails \<Rightarrow>
          (False, s\<lparr>audioContext := Some \<lparr>started = []\<rparr>,
                     playbackStatus := ''Audio initialization failed'',
                     console_error := console_error s @ [''Failed to initialize audio context:'']\<rparr>)
      | Ready currentTime \<Rightarrow>
          (True, s\<lparr>audioContext := Some \<lparr>started = []\<rparr>,
                    nextPlayTime := currentTime,
                    playbackStatus := ''Audio context initialized''\<rparr>))"

definition startAudioPlayback :: "context_outcome \<Rightarrow> connections \<Rightarrow> connections" where
  "startAudioPlayback outcome s =
     (if \<not> isConnected s then s\<lparr>playbackStatus := ''Not connected to WebSocket''\<rparr>
      else
        (case initializeAudioContext outcome s of
           (initialized, s') \<Rightarrow>
             if \<not> initialized then s'
             else s'\<lparr>isPlaying := True, audioQueue := [],
                      playbackStatus := ''Ready to play incoming audio''\<rparr>))"

text \<open>
  The component as a whole. Its events are the clicks on the buttons that the JSX
  renders, the events of the socket and the firing of a pending timer, each at a device
  time. Connect is rendered while \<open>isConnected\<close> is false and Disconnect while it is
  true; Stop Playing is rendered while \<open>isPlaying\<close> is true, and Start Playing
  otherwise, disabled while \<open>isConnected\<close> is false. A message is delivered to the
  handler of the socket in \<^verbatim>\<open>websocketConnection.current\<close>; a socket that was replaced or
  disconnected has been closed and delivers no more messages, and its \<^verbatim>\<open>close\<close> event
  may come at any time.
\<close>

datatype ui_event =
    ClickConnect string bool
  | ClickDisconnect
  | ClickStartPlaying context_outcome
  | ClickStopPlaying
  | SocketOpen
  | SocketClose
  | SocketError
  | SocketMessage event_data
  | TimerFires

definition component_step ::
  "(real \<Rightarrow> real) \<Rightarrow> real \<Rightarrow> ui_event \<Rightarrow> connections \<Rightarrow> connections" where
  "component_step fround currentTime e s =
     (case e of
        ClickConnect websocketUrl accepted \<Rightarrow>
          if isConnected s then s else connectToWebsocket websocketUrl accepted s
      | ClickDisconnect \<Rightarrow> if isConnected s then disconnectWebsocket s else s
      | ClickStartPlaying outcome \<Rightarrow>
          if isPlaying s then s
          else if isConnected s then startAudioPlayback outcome s
          else s
      | ClickStopPlaying \<Rightarrow> if isPlaying s then stopAudioPlayback s else s
      | SocketOpen \<Rightarrow> onopen s
      | SocketClose \<Rightarrow> onclose s
      | SocketError \<Rightarrow> onerror s
      | SocketMessage data \<Rightarrow>
          (case websocketConnection s of
             None \<Rightarrow> s
           | Some socket \<Rightarrow> onmessage (handler_isPlaying socket) fround currentTime s data)
      | TimerFires \<Rightarrow> timer_fires currentTime s)"

fun component_run ::
  "(real \<Rightarrow> real) \<Rightarrow> (real \<times> ui_event) list \<Rightarrow> connections \<Rightarrow> connections" where
  "component_run fround [] s = s"
| "component_run fround ((currentTime, e) # events) s =
     component_run fround events (component_step fround currentTime e s)"

text \<open>
  The component after Connect, the socket's \<^verbatim>\<open>open\<close> event and Start Playing, all at
  device time 0.
\<close>

definition started_playing_at_0 :: connections where
  "started_playing_at_0 =
     component_run (\<lambda>v. v)
       [(0, ClickConnect ''ws://localhost:8080'' True), (0, SocketOpen),
        (0, ClickStartPlaying (Ready 0))]
       initial_connections"



text \<open>
  The sources started on the current context: their computed start times (the \<^verbatim>\<open>when\<close>
  arguments) with their frames, and each computed start time with the device time at
  which the frame was committed. \<open>spaced\<close> is the scheduler's ordering property of the
  computed start times.
\<close>

definition sources :: "connections \<Rightarrow> (real \<times> real \<times> real list) list" where
  "sources s = (case audioContext s of None \<Rightarrow> [] | Some ctx \<Rightarrow> started ctx)"










text \<open>
  What every run of the component keeps true: playback is on only while connected, the
  handler of the socket has \<^verbatim>\<open>isPlaying = false\<close>, and nothing was ever queued, started
  or scheduled.
\<close>

definition wired :: "connections \<Rightarrow> bool" where
  "wired s =
     ((isPlaying s \<longrightarrow> isConnected s)
      \<and> (case websocketConnection s of None \<Rightarrow> True | Some socket \<Rightarrow> \<not> handler_isPlaying socket)
      \<and> timeouts s = [] \<and> audioQueue s = [] \<and> sources s = []
      \<and> \<not> isPlaybackActive s \<and> volumeLevel s = Num 0)"

section \<open>Properties of the accumulator\<close>

lemma process_samples_append:
  "process_samples (xs @ ys) p posted =
     (case process_samples xs p posted of (p', posted') \<Rightarrow> process_samples ys p' posted')"
  by (induction xs arbitrary: p posted) (simp_all add: Let_def)

lemma run_quanta_concat:
  "run_quanta blocks p posted = Inr (process_samples (concat blocks) p posted)"
proof (induction blocks arbitrary: p posted)
  case Nil
  then show ?case by simp
next
  case (Cons b bs)
  obtain p' posted' where r: "process_samples b p posted = (p', posted')"
    by (cases "process_samples b p posted")
  then show ?case
    by (simp add: process_def process_samples_append Cons)
qed

lemma full_frames_snoc_same:
  assumes "0 < L" "Suc (length xs mod L) \<noteq> L"
  shows "full_frames L (xs @ [x]) = full_frames L xs"
proof -
  have d: "length (xs @ [x]) div L = length xs div L"
    using assms by (simp add: div_Suc mod_Suc)
  have "take L (drop (k * L) (xs @ [x])) = take L (drop (k * L) xs)"
    if "k < length xs div L" for k
  proof -
    have "Suc k * L \<le> length xs div L * L" using that by (intro mult_le_mono1) simp
    also have "\<dots> \<le> length xs" by simp
    finally have "k * L + L \<le> length xs" by simp
    then show ?thesis by simp
  qed
  then show ?thesis unfolding full_frames_def d by simp
qed

lemma full_frames_snoc_full:
  assumes "0 < L" "Suc (length xs mod L) = L"
  shows "full_frames L (xs @ [x]) = full_frames L xs @ [drop (length xs - length xs mod L) xs @ [x]]"
proof -
  have d: "length (xs @ [x]) div L = Suc (length xs div L)"
    using assms by (simp add: div_Suc mod_Suc)
  have same: "take L (drop (k * L) (xs @ [x])) = take L (drop (k * L) xs)"
    if "k < length xs div L" for k
  proof -
    have "Suc k * L \<le> length xs div L * L" using that by (intro mult_le_mono1) simp
    also have "\<dots> \<le> length xs" by simp
    finally have "k * L + L \<le> length xs" by simp
    then show ?thesis by simp
  qed
  have e: "length xs div L * L = length xs - length xs mod L"
    by (metis minus_mod_eq_div_mult)
  have l: "length xs - (length xs - length xs mod L) = length xs mod L"
    by (simp add: mod_le_divisor)
  have last: "take L (drop (length xs div L * L) (xs @ [x])) = drop (length xs - length xs mod L) xs @ [x]"
    unfolding e using assms by (simp add: l)
  show ?thesis unfolding full_frames_def d using same last by simp
qed

lemma process_samples_fresh:
  assumes "length (buffer p0) = L" "0 < L" "bufferIndex p0 = 0"
  shows "\<exists>b. process_samples xs p0 [] =
            (\<lparr>bufferSize = bufferSize p0, buffer = b, bufferIndex = length xs mod L\<rparr>, full_frames L xs)
          \<and> length b = L
          \<and> take (length xs mod L) b = drop (length xs - length xs mod L) xs"
proof (induction xs rule: rev_induct)
  case Nil
  show ?case using assms by (cases p0) (simp add: full_frames_def)
next
  case (snoc x xs)
  then obtain b where
    r: "process_samples xs p0 [] =
          (\<lparr>bufferSize = bufferSize p0, buffer = b, bufferIndex = length xs mod L\<rparr>, full_frames L xs)"
    and lb: "length b = L"
    and tb: "take (length xs mod L) b = drop (length xs - length xs mod L) xs"
    by blast
  let ?m = "length xs mod L"
  have m: "?m < L" using assms by simp
  have tk: "take (Suc ?m) (b[?m := x]) = drop (length xs - ?m) xs @ [x]"
    using m lb tb by (simp add: take_Suc_conv_app_nth)
  show ?case
  proof (cases "Suc ?m = L")
    case True
    then have "b[?m := x] = take (Suc ?m) (b[?m := x])" using lb by simp
    with tk have full: "b[?m := x] = drop (length xs - ?m) xs @ [x]" by simp
    have step: "process_samples (xs @ [x]) p0 [] =
        (\<lparr>bufferSize = bufferSize p0, buffer = b[?m := x], bufferIndex = 0\<rparr>,
         full_frames L xs @ [b[?m := x]])"
      using True lb by (simp add: process_samples_append r Let_def)
    have ff: "full_frames L (xs @ [x]) = full_frames L xs @ [b[?m := x]]"
      using full_frames_snoc_full [OF assms(2) True] full by simp
    have md: "length (xs @ [x]) mod L = 0"
      using True by (simp add: mod_Suc)
    show ?thesis
      unfolding step ff md using lb by (intro exI [of _ "b[?m := x]"]) simp
  next
    case False
    have le: "?m \<le> length xs" by (rule mod_less_eq_dividend)
    have lt: "Suc ?m < L" using False m by simp
    have step: "process_samples (xs @ [x]) p0 [] =
        (\<lparr>bufferSize = bufferSize p0, buffer = b[?m := x], bufferIndex = Suc ?m\<rparr>,
         full_frames L xs)"
      using lt lb by (simp add: process_samples_append r Let_def)
    have ff: "full_frames L (xs @ [x]) = full_frames L xs"
      by (rule full_frames_snoc_same [OF assms(2) False])
    have md: "length (xs @ [x]) mod L = Suc ?m"
      using False by (simp add: mod_Suc)
    have dr: "drop (length (xs @ [x]) - Suc ?m) (xs @ [x]) = drop (length xs - ?m) xs @ [x]"
      using le by simp
    show ?thesis
      unfolding step ff md dr using lb tk by (intro exI [of _ "b[?m := x]"]) simp
  qed
qed

lemma length_full_frames: "map length (full_frames L xs) = replicate (length xs div L) L"
proof (rule nth_equalityI)
  show "length (map length (full_frames L xs)) = length (replicate (length xs div L) L)"
    by (simp add: full_frames_def)
next
  fix k assume "k < length (map length (full_frames L xs))"
  then have k: "k < length xs div L" by (simp add: full_frames_def)
  then have "Suc k * L \<le> length xs div L * L" by (intro mult_le_mono1) simp
  also have "\<dots> \<le> length xs" by simp
  finally have "k * L + L \<le> length xs" by simp
  then show "map length (full_frames L xs) ! k = replicate (length xs div L) L ! k"
    using k by (simp add: full_frames_def)
qed

text \<open>
  Claim C3. For any stream of \<open>N\<close> samples delivered in any blocks to a new accumulator,
  the messages posted are exactly the \<open>N div 4096\<close> consecutive slices of 4096 samples of
  the stream, in input order. The remaining \<open>N mod 4096\<close> samples are not emitted: they
  stay at the start of the buffer (the processor has no flush operation), so the number of
  samples emitted is \<open>4096 * (N div 4096)\<close>.
\<close>

theorem accumulator_full_frames_only:
  "case run_quanta blocks PCMProcessor_new [] of
     Inl e \<Rightarrow> False
   | Inr (p, posted) \<Rightarrow>
       posted = full_frames 4096 (concat blocks) \<and>
       map length posted = replicate (length (concat blocks) div 4096) 4096 \<and>
       sum_list (map length posted) = 4096 * (length (concat blocks) div 4096) \<and>
       bufferIndex p = length (concat blocks) mod 4096 \<and>
       take (bufferIndex p) (buffer p) =
         drop (length (concat blocks) - length (concat blocks) mod 4096) (concat blocks)"
proof -
  have "length (buffer PCMProcessor_new) = 4096" "bufferIndex PCMProcessor_new = 0"
    by (simp_all add: PCMProcessor_new_def)
  from process_samples_fresh [OF this(1) _ this(2), of "concat blocks"]
  obtain b where
    "process_samples (concat blocks) PCMProcessor_new [] =
       (\<lparr>bufferSize = bufferSize PCMProcessor_new, buffer = b,
         bufferIndex = length (concat blocks) mod 4096\<rparr>, full_frames 4096 (concat blocks))"
    and "take (length (concat blocks) mod 4096) b =
           drop (length (concat blocks) - length (concat blocks) mod 4096) (concat blocks)"
    by auto
  then show ?thesis
    by (simp add: run_quanta_concat length_full_frames sum_list_replicate)
qed

text \<open>
  Claim C3 as stated fails: a stream of one sample is accepted, nothing is posted, and no
  operation of the processor emits the sample later; the emitted total is 0, not 1.
\<close>

theorem accumulator_remainder_not_emitted:
  "run_quanta [[1]] PCMProcessor_new [] =
     Inr (\<lparr>bufferSize = 0, buffer = (replicate 4096 0)[0 := 1], bufferIndex = 1\<rparr>, [])
   \<and> sum_list (map length ([] :: real list list)) \<noteq> length (concat [[1 :: real]])"
  by (simp add: process_def PCMProcessor_new_def)

section \<open>Properties of the WAV encoders\<close>

lemma le_bytes32:
  fixes w :: "32 word"
  shows "unat (ucast w :: 8 word) + 256 * unat (ucast (drop_bit 8 w) :: 8 word)
       + 65536 * unat (ucast (drop_bit 16 w) :: 8 word)
       + 16777216 * unat (ucast (drop_bit 24 w) :: 8 word) = unat w"
proof -
  have u: "unat (ucast (v :: 32 word) :: 8 word) = unat v mod 256" for v
    by (simp add: unsigned_ucast_eq take_bit_eq_mod)
  have d: "unat (drop_bit k w) = unat w div 2 ^ k" for k
    unfolding unat_drop_bit_eq by (simp add: drop_bit_eq_div)
  have b: "unat w < 4294967296"
    using unsigned_less [of w, where ?'a = nat] by simp
  define x where "x = unat w"
  have "x mod 256 + 256 * (x div 256 mod 256) + 65536 * (x div 65536 mod 256)
          + 16777216 * (x div 16777216 mod 256) = x" if "x < 4294967296"
  proof -
    have e2: "x div 65536 = x div 256 div 256"
      by (simp add: div_mult2_eq [symmetric])
    have e3: "x div 16777216 = x div 256 div 256 div 256"
      by (simp add: div_mult2_eq [symmetric])
    have top: "x div 256 div 256 div 256 < 256"
      using that by (simp add: div_mult2_eq [symmetric] less_mult_imp_div_less)
    define a where "a = x div 256"
    define b where "b = a div 256"
    define c where "c = b div 256"
    have xa: "x = x mod 256 + 256 * a" by (simp add: a_def)
    have ab: "a = a mod 256 + 256 * b" by (simp add: b_def)
    have bc: "b = b mod 256 + 256 * c" by (simp add: c_def)
    have cc: "c mod 256 = c" using top by (simp add: a_def b_def c_def)
    have "x mod 256 + 256 * (a mod 256) + 65536 * (b mod 256) + 16777216 * (c mod 256) = x"
      using xa ab bc cc by linarith
    then show ?thesis by (simp add: e2 e3 a_def b_def c_def)
  qed
  then show ?thesis
    using b by (simp add: u d x_def)
qed


lemma write_pcm_keeps:
  "44 + 2 * (i + length ss) \<le> length view \<Longrightarrow>
     \<exists>v'. write_pcm view i ss = Inr v' \<and> length v' = length view
          \<and> (\<forall>j < 44 + 2 * i. v' ! j = view ! j)"
proof (induction ss arbitrary: view i)
  case Nil
  then show ?case by simp
next
  case (Cons s ss)
  let ?v = "view[44 + i * 2 := ucast s, 44 + i * 2 + 1 := ucast (drop_bit 8 s)]"
  have st: "setInt16 view (44 + i * 2) s = Inr ?v"
    using Cons.prems by (simp add: setInt16_def setUint16_def)
  have "44 + 2 * (Suc i + length ss) \<le> length ?v"
    using Cons.prems by simp
  from Cons.IH [OF this] obtain v' where
    r: "write_pcm ?v (Suc i) ss = Inr v'" and l: "length v' = length ?v"
    and k: "\<forall>j < 44 + 2 * Suc i. v' ! j = ?v ! j"
    by blast
  have "v' ! j = view ! j" if "j < 44 + 2 * i" for j
  proof -
    have "v' ! j = ?v ! j" using k that by simp
    also have "\<dots> = view ! j" using that by simp
    finally show ?thesis .
  qed
  then show ?case
    using r l by (simp add: st and_then_def)
qed

lemma unat_of_nat32: "m < 4294967296 \<Longrightarrow> unat (of_nat m :: 32 word) = m"
  by (simp add: unat_of_nat)

lemma getUint32_bytes:
  fixes w :: "32 word"
  assumes "view ! off = ucast w" "view ! (off + 1) = ucast (drop_bit 8 w)"
    "view ! (off + 2) = ucast (drop_bit 16 w)" "view ! (off + 3) = ucast (drop_bit 24 w)"
  shows "getUint32 view off = unat w"
  unfolding getUint32_def assms by (rule le_bytes32)

lemma pcmToWav_layout:
  assumes "44 + 2 * length pcmSamples < 4294967296"
  shows "\<exists>wav. pcmToWav pcmSamples sampleRate numChannels = Inr wav
           \<and> length wav = 44 + 2 * length pcmSamples
           \<and> getUint32 wav 4 = 36 + 2 * length pcmSamples
           \<and> getUint32 wav 40 = 2 * length pcmSamples"
proof -
  define n where "n = length pcmSamples"
  define a where "a = 36 + 2 * n"
  define d where "d = 2 * n"
  obtain H where
    h: "pcmToWav pcmSamples sampleRate numChannels = write_pcm H 0 pcmSamples"
    and lh: "length H = 44 + 2 * n"
    and h4: "H ! 4 = ucast (of_nat a :: 32 word)"
            "H ! (4 + 1) = ucast (drop_bit 8 (of_nat a :: 32 word))"
            "H ! (4 + 2) = ucast (drop_bit 16 (of_nat a :: 32 word))"
            "H ! (4 + 3) = ucast (drop_bit 24 (of_nat a :: 32 word))"
    and h40: "H ! 40 = ucast (of_nat d :: 32 word)"
            "H ! (40 + 1) = ucast (drop_bit 8 (of_nat d :: 32 word))"
            "H ! (40 + 2) = ucast (drop_bit 16 (of_nat d :: 32 word))"
            "H ! (40 + 3) = ucast (drop_bit 24 (of_nat d :: 32 word))"
    by (simp add: pcmToWav_def Let_def and_then_def setUint8_def setUint16_def setUint32_def
          n_def a_def d_def mult.commute)
  have "44 + 2 * (0 + length pcmSamples) \<le> length H"
    using lh by (simp add: n_def)
  from write_pcm_keeps [OF this] obtain wav where
    w: "write_pcm H 0 pcmSamples = Inr wav" and lw: "length wav = length H"
    and k: "\<forall>j < 44. wav ! j = H ! j"
    by auto
  have u1: "unat (of_nat a :: 32 word) = a"
    by (rule unat_of_nat32) (use assms in \<open>simp add: a_def n_def\<close>)
  have u2: "unat (of_nat d :: 32 word) = d"
    by (rule unat_of_nat32) (use assms in \<open>simp add: d_def n_def\<close>)
  have "getUint32 wav 4 = unat (of_nat a :: 32 word)"
    by (rule getUint32_bytes) (use k h4 in simp_all)
  with u1 have "getUint32 wav 4 = a" by simp
  then have g4: "getUint32 wav 4 = 36 + 2 * n"
    by (simp add: a_def)
  have "getUint32 wav 40 = unat (of_nat d :: 32 word)"
    by (rule getUint32_bytes) (use k h40 in simp_all)
  with u2 have "getUint32 wav 40 = d" by simp
  then have g40: "getUint32 wav 40 = 2 * n"
    by (simp add: d_def)
  show ?thesis
    using h w lw lh g4 g40 by (simp add: n_def)
qed

lemma pcmToWav_converter_layout:
  assumes "44 + length pcmBuffer < 4294967296"
  shows "\<exists>wav. pcmToWav_converter pcmBuffer 16000 1 16 = Inr wav
           \<and> length wav = 44 + length pcmBuffer
           \<and> getUint32 wav 4 = 36 + length pcmBuffer
           \<and> getUint32 wav 40 = length pcmBuffer"
proof -
  define d where "d = length pcmBuffer"
  define a where "a = 36 + d"
  have w4: "writeUInt32LE buf (real (44 + length pcmBuffer) - 8) off = setUint32 buf off (of_nat a)"
    for buf off
  proof -
    have "real (44 + length pcmBuffer) - 8 = real a" by (simp add: a_def d_def)
    moreover have "\<not> (real a < 0 \<or> real a > 4294967295)"
      using assms by (simp add: a_def d_def)
    ultimately show ?thesis by (simp add: writeUInt32LE_def)
  qed
  have w40: "writeUInt32LE buf (real (length pcmBuffer)) off = setUint32 buf off (of_nat d)"
    for buf off
    using assms by (simp add: writeUInt32LE_def d_def)
  obtain H where
    h: "pcmToWav_converter pcmBuffer 16000 1 16 = Inr (H @ pcmBuffer)"
    and lh: "length H = 44"
    and h4: "H ! 4 = ucast (of_nat a :: 32 word)"
            "H ! (4 + 1) = ucast (drop_bit 8 (of_nat a :: 32 word))"
            "H ! (4 + 2) = ucast (drop_bit 16 (of_nat a :: 32 word))"
            "H ! (4 + 3) = ucast (drop_bit 24 (of_nat a :: 32 word))"
    and h40: "H ! 40 = ucast (of_nat d :: 32 word)"
            "H ! (40 + 1) = ucast (drop_bit 8 (of_nat d :: 32 word))"
            "H ! (40 + 2) = ucast (drop_bit 16 (of_nat d :: 32 word))"
            "H ! (40 + 3) = ucast (drop_bit 24 (of_nat d :: 32 word))"
    unfolding pcmToWav_converter_def Let_def w4 w40
    by (simp add: and_then_def writeUInt32LE_def writeUInt16LE_def setUint16_def setUint32_def)
  have u1: "unat (of_nat a :: 32 word) = a"
    by (rule unat_of_nat32) (use assms in \<open>simp add: a_def d_def\<close>)
  have u2: "unat (of_nat d :: 32 word) = d"
    by (rule unat_of_nat32) (use assms in \<open>simp add: d_def\<close>)
  have nth: "(H @ pcmBuffer) ! j = H ! j" if "j < 44" for j
    using that lh by (simp add: nth_append)
  have "getUint32 (H @ pcmBuffer) 4 = unat (of_nat a :: 32 word)"
    by (rule getUint32_bytes) (use h4 in \<open>simp_all add: nth\<close>)
  with u1 have g4: "getUint32 (H @ pcmBuffer) 4 = a" by simp
  have "getUint32 (H @ pcmBuffer) 40 = unat (of_nat d :: 32 word)"
    by (rule getUint32_bytes) (use h40 in \<open>simp_all add: nth\<close>)
  with u2 have g40: "getUint32 (H @ pcmBuffer) 40 = d" by simp
  show ?thesis
    using h lh g4 g40 by (simp add: a_def d_def)
qed

text \<open>
  Claim C2, with the sizes the encoders produce. Encoding 32000 16-bit samples (64000
  bytes of PCM) at 16000 Hz mono yields a buffer of 44 + 64000 = 64044 bytes whose bytes
  4-7 read 64036 (the buffer length minus 8) and whose bytes 40-43 read 64000, both as
  little-endian unsigned 32-bit integers. This holds for \<^verbatim>\<open>pcmToWav\<close> of
  \<^verbatim>\<open>audioUtils\<close> and for \<^verbatim>\<open>pcmToWav\<close> of \<^verbatim>\<open>pcm-to-wav-converter.js\<close>.
\<close>

theorem wav_header_32000_samples:
  assumes "length pcmSamples = 32000" and "length pcmBuffer = 64000"
  shows "(case pcmToWav pcmSamples 16000 1 of
            Inl e \<Rightarrow> False
          | Inr wav \<Rightarrow> length wav = 64044 \<and> getUint32 wav 4 = 64036 \<and> getUint32 wav 40 = 64000)
       \<and> (case pcmToWav_converter pcmBuffer 16000 1 16 of
            Inl e \<Rightarrow> False
          | Inr wav \<Rightarrow> length wav = 64044 \<and> getUint32 wav 4 = 64036 \<and> getUint32 wav 40 = 64000)"
proof -
  have "44 + 2 * length pcmSamples < 4294967296" using assms(1) by simp
  have a: "case pcmToWav pcmSamples 16000 1 of
            Inl e \<Rightarrow> False
          | Inr wav \<Rightarrow> length wav = 64044 \<and> getUint32 wav 4 = 64036 \<and> getUint32 wav 40 = 64000"
    using pcmToWav_layout [OF \<open>44 + 2 * length pcmSamples < 4294967296\<close>, of 16000 1] assms(1)
    by auto
  have "44 + length pcmBuffer < 4294967296" using assms(2) by simp
  from pcmToWav_converter_layout [OF this] assms(2)
  have b: "case pcmToWav_converter pcmBuffer 16000 1 16 of
            Inl e \<Rightarrow> False
          | Inr wav \<Rightarrow> length wav = 64044 \<and> getUint32 wav 4 = 64036 \<and> getUint32 wav 40 = 64000"
    by auto
  from a b show ?thesis by simp
qed

text \<open>The theorem at 32000 samples of silence.\<close>

theorem wav_header_32000_samples_witness:
  "(case pcmToWav (replicate 32000 0) 16000 1 of
      Inl e \<Rightarrow> False
    | Inr wav \<Rightarrow> length wav = 64044 \<and> getUint32 wav 4 = 64036 \<and> getUint32 wav 40 = 64000)
   \<and> (case pcmToWav_converter (replicate 64000 0) 16000 1 16 of
      Inl e \<Rightarrow> False
    | Inr wav \<Rightarrow> length wav = 64044 \<and> getUint32 wav 4 = 64036 \<and> getUint32 wav 40 = 64000)"
  using wav_header_32000_samples [of "replicate 32000 0" "replicate 64000 0"] by simp

text \<open>
  Claim C2 as stated fails: for 32000 samples of silence the buffer does not have 64108
  bytes and bytes 4-7 do not read 64100.
\<close>

theorem wav_header_not_64108:
  "(case pcmToWav (replicate 32000 0) 16000 1 of
      Inl e \<Rightarrow> False
    | Inr wav \<Rightarrow> length wav \<noteq> 64108 \<and> getUint32 wav 4 \<noteq> 64100)
   \<and> (case pcmToWav_converter (replicate 64000 0) 16000 1 16 of
      Inl e \<Rightarrow> False
    | Inr wav \<Rightarrow> length wav \<noteq> 64108 \<and> getUint32 wav 4 \<noteq> 64100)"
proof -
  have "44 + 2 * length (replicate 32000 (0 :: 16 word)) < 4294967296" by simp
  from pcmToWav_layout [OF this, of 16000 1]
  have a: "case pcmToWav (replicate 32000 0) 16000 1 of
      Inl e \<Rightarrow> False
    | Inr wav \<Rightarrow> length wav \<noteq> 64108 \<and> getUint32 wav 4 \<noteq> 64100"
    by auto
  have "44 + length (replicate 64000 (0 :: 8 word)) < 4294967296" by simp
  from pcmToWav_converter_layout [OF this]
  have b: "case pcmToWav_converter (replicate 64000 0) 16000 1 16 of
      Inl e \<Rightarrow> False
    | Inr wav \<Rightarrow> length wav \<noteq> 64108 \<and> getUint32 wav 4 \<noteq> 64100"
    by auto
  from a b show ?thesis by simp
qed

section \<open>Properties of the sample codec\<close>

lemma sint16_of_int:
  assumes "- 32768 \<le> n" "n < 32768"
  shows "sint (word_of_int n :: 16 word) = n"
proof -
  have "sint (word_of_int n :: 16 word) = (n + 32768) mod 65536 - 32768"
    by (simp add: int_word_sint)
  also have "\<dots> = n" using assms by simp
  finally show ?thesis .
qed

lemma Math_round_near: "\<bar>real_of_int (Math_round v) - v\<bar> \<le> 1 / 2"
  unfolding Math_round_def by linarith

lemma Math_round_range:
  assumes "- 32767 \<le> v" "v \<le> 32767"
  shows "- 32767 \<le> Math_round v \<and> Math_round v \<le> 32767"
  using assms unfolding Math_round_def by linarith


lemma codec_sample_round_trip:
  assumes fr: "\<forall>v. \<bar>fround v - v\<bar> \<le> \<bar>v\<bar> / 2 ^ 23"
    and x: "- 1 \<le> x" "x \<le> 1"
  shows "\<bar>fround (real_of_int (sint (word_of_int (Math_round (max (- 1) (min 1 x) * 32767)) :: 16 word)) / 32767) - x\<bar>
           \<le> 1 / 32767"
proof -
  define n where "n = Math_round (x * 32767)"
  define q where "q = real_of_int n / 32767"
  have cl: "max (- 1) (min 1 x) = x" using x by simp
  have rng: "- 32767 \<le> n \<and> n \<le> 32767"
    unfolding n_def by (rule Math_round_range) (use x in simp_all)
  then have s: "sint (word_of_int n :: 16 word) = n"
    by (intro sint16_of_int) simp_all
  have "\<bar>real_of_int n - x * 32767\<bar> \<le> 1 / 2"
    unfolding n_def by (rule Math_round_near)
  then have qx: "\<bar>q - x\<bar> \<le> 1 / 65534"
    unfolding q_def by (simp add: field_simps abs_le_iff)
  have q1: "\<bar>q\<bar> \<le> 1"
    using rng unfolding q_def by (simp add: abs_le_iff)
  have "\<bar>fround q - q\<bar> \<le> \<bar>q\<bar> / 2 ^ 23" using fr by blast
  also have "\<dots> \<le> 1 / 2 ^ 23" using q1 by (simp add: divide_right_mono)
  finally have fq: "\<bar>fround q - q\<bar> \<le> 1 / 2 ^ 23" .
  have "\<bar>fround q - x\<bar> \<le> \<bar>fround q - q\<bar> + \<bar>q - x\<bar>" by linarith
  also have "\<dots> \<le> 1 / 2 ^ 23 + 1 / 65534" using fq qx by linarith
  also have "\<dots> \<le> 1 / 32767" by simp
  finally show ?thesis
    by (simp add: cl s n_def [symmetric] q_def [symmetric])
qed

text \<open>
  Claim C7. For every sample \<open>x\<close> in \<open>[-1, 1]\<close>, decoding the encoded sample gives a
  value within \<open>1 / 32767\<close> of \<open>x\<close>. No sample of \<open>[-1, 1]\<close> is excluded: the
  encoder maps \<open>[-1, 1]\<close> into \<open>[-32767, 32767]\<close>, so the value \<open>-32768\<close> of the
  asymmetric boundary is never produced. The bound holds for every rounding \<open>fround\<close> of
  the decoder's store with relative error at most \<open>2\<^sup>-\<^sup>2\<^sup>3\<close>, which covers the rounding of
  the quotient to a double followed by the rounding to single precision; with the identity
  it is the statement about the exact quotient. The product \<^verbatim>\<open>clamped * 32767\<close> of the
  encoder is exact for a single-precision sample.
\<close>

theorem codec_round_trip:
  assumes "\<forall>v. \<bar>fround v - v\<bar> \<le> \<bar>v\<bar> / 2 ^ 23"
    and "i < length floatSamples"
    and "- 1 \<le> floatSamples ! i" and "floatSamples ! i \<le> 1"
  shows "length (pcm16ToFloat fround (floatToPCM16 floatSamples)) = length floatSamples
       \<and> \<bar>pcm16ToFloat fround (floatToPCM16 floatSamples) ! i - floatSamples ! i\<bar> \<le> 1 / 32767"
  using assms(2) codec_sample_round_trip [OF assms(1,3,4)]
  by (simp add: pcm16ToFloat_def floatToPCM16_def Let_def)

text \<open>The theorem at the samples \<open>1/2, -1, 1\<close> with exact arithmetic.\<close>

theorem codec_round_trip_witness:
  "length (pcm16ToFloat (\<lambda>v. v) (floatToPCM16 [1 / 2, - 1, 1])) = 3
   \<and> \<bar>pcm16ToFloat (\<lambda>v. v) (floatToPCM16 [1 / 2, - 1, 1]) ! 0 - 1 / 2\<bar> \<le> 1 / 32767"
  using codec_round_trip [of "\<lambda>v. v" 0 "[1 / 2, - 1, 1]"] by simp

section \<open>Properties of the playback scheduler\<close>





text \<open>
  The component never lets a payload through: \<open>wired\<close> holds after every run, and with
  it a message or a timer changes nothing.
\<close>

lemma handlePCMData_not_playing: "handlePCMData False fround currentTime s arrayBuffer = s"
  by (simp add: handlePCMData_def)

lemma onmessage_not_playing: "onmessage False fround currentTime s data = s"
  by (cases data) (simp_all add: onmessage_def handlePCMData_not_playing)

lemma wired_initial: "wired initial_connections"
  by (simp add: wired_def initial_connections_def sources_def)

lemma wired_message:
  assumes "wired s"
  shows "component_step fround currentTime (SocketMessage data) s = s"
proof (cases "websocketConnection s")
  case None
  then show ?thesis by (simp add: component_step_def)
next
  case (Some socket)
  then have "\<not> handler_isPlaying socket" using assms by (simp add: wired_def)
  then show ?thesis using Some by (simp add: component_step_def onmessage_not_playing)
qed

lemma wired_timer:
  assumes "wired s"
  shows "component_step fround currentTime TimerFires s = s"
  using assms by (simp add: component_step_def timer_fires_def wired_def)

lemma wired_step:
  assumes "wired s"
  shows "wired (component_step fround currentTime e s)"
proof (cases e)
  case (ClickConnect websocketUrl accepted)
  then show ?thesis
    using assms
    by (auto simp add: component_step_def connectToWebsocket_def wired_def sources_def)
next
  case ClickDisconnect
  then show ?thesis
    using assms
    by (auto simp add: component_step_def disconnectWebsocket_def stopAudioPlayback_def
          wired_def sources_def)
next
  case (ClickStartPlaying outcome)
  then show ?thesis
    using assms
    by (cases outcome)
       (auto simp add: component_step_def startAudioPlayback_def initializeAudioContext_def
          wired_def sources_def)
next
  case ClickStopPlaying
  then show ?thesis
    using assms
    by (auto simp add: component_step_def stopAudioPlayback_def wired_def sources_def)
next
  case SocketOpen
  then show ?thesis
    using assms by (auto simp add: component_step_def onopen_def wired_def sources_def)
next
  case SocketClose
  then show ?thesis
    using assms
    by (auto simp add: component_step_def onclose_def stopAudioPlayback_def wired_def sources_def)
next
  case SocketError
  then show ?thesis
    using assms
    by (auto simp add: component_step_def onerror_def stopAudioPlayback_def wired_def
          sources_def Let_def)
next
  case (SocketMessage data)
  then show ?thesis using assms wired_message [OF assms] by simp
next
  case TimerFires
  then show ?thesis using assms wired_timer [OF assms] by simp
qed

lemma wired_run: "wired s \<Longrightarrow> wired (component_run fround events s)"
  by (induction events arbitrary: s) (auto simp add: wired_step)

lemma component_run_append:
  "component_run fround (events @ later) s =
     component_run fround later (component_run fround events s)"
  by (induction events arbitrary: s) auto

lemma component_discards_messages:
  "component_run fround (events @ [(currentTime, SocketMessage data)]) initial_connections =
     component_run fround events initial_connections"
  using wired_message [OF wired_run [OF wired_initial]]
  by (simp add: component_run_append)



lemma started_playing_at_0_run:
  "started_playing_at_0 = component_run fround
       [(0, ClickConnect ''ws://localhost:8080'' True), (0, SocketOpen),
        (0, ClickStartPlaying (Ready 0))]
       initial_connections"
  by (simp add: started_playing_at_0_def component_step_def)






























text \<open>
  Claim C9. A payload that arrives at a handler whose \<^verbatim>\<open>isPlaying\<close> is false is discarded
  before any processing, whatever its content: \<^verbatim>\<open>handlePCMData\<close> returns the state as it
  was, so the jitter queue, \<open>nextPlayTime\<close> and the reported volume level are unchanged.
  For the handler of a render in which the playing flag is false, \<open>isPlaying'\<close> is that
  flag. The handler of the component's socket is such a handler in every run, so a message
  changes nothing in the component, in particular while playback has not been started.
\<close>

theorem payload_ignored_when_not_playing:
  assumes "\<not> isPlaying'"
  shows "handlePCMData isPlaying' fround currentTime s arrayBuffer = s
       \<and> onmessage isPlaying' fround currentTime s (ArrayBuffer arrayBuffer) = s
       \<and> audioQueue (handlePCMData isPlaying' fround currentTime s arrayBuffer) = audioQueue s
       \<and> nextPlayTime (handlePCMData isPlaying' fround currentTime s arrayBuffer) = nextPlayTime s
       \<and> volumeLevel (handlePCMData isPlaying' fround currentTime s arrayBuffer) = volumeLevel s
       \<and> component_run fround (events @ [(currentTime, SocketMessage (ArrayBuffer arrayBuffer))])
             initial_connections =
           component_run fround events initial_connections"
  using assms component_discards_messages [of fround events currentTime "ArrayBuffer arrayBuffer"]
  by (simp add: handlePCMData_def onmessage_def)

text \<open>
  The theorem at the initial state of the component, where nothing is playing, with a
  payload of one sample.
\<close>

theorem payload_ignored_when_not_playing_witness:
  "\<not> isPlaying initial_connections
   \<and> handlePCMData (isPlaying initial_connections) (\<lambda>v. v) 0 initial_connections [0, 0] =
       initial_connections
   \<and> audioQueue (handlePCMData False (\<lambda>v. v) 0 initial_connections [0, 0]) = []
   \<and> component_run (\<lambda>v. v) [(0, SocketMessage (ArrayBuffer [0, 0]))] initial_connections =
       initial_connections"
proof -
  have n: "\<not> isPlaying initial_connections" by (simp add: initial_connections_def)
  note th = payload_ignored_when_not_playing [OF n, of "\<lambda>v. v" 0 initial_connections "[0, 0]" "[]"]
  have 1: "handlePCMData (isPlaying initial_connections) (\<lambda>v. v) 0 initial_connections [0, 0] =
      initial_connections"
    using th by (rule conjunct1)
  have 2: "component_run (\<lambda>v. v) ([] @ [(0, SocketMessage (ArrayBuffer [0, 0]))]) initial_connections =
      component_run (\<lambda>v. v) [] initial_connections"
    using th by blast
  have f: "isPlaying initial_connections = False" using n by simp
  show ?thesis
    using n 1 2 unfolding f by (simp add: initial_connections_def)
qed



















end
